theory Spec2Isabelle
  imports Complex_Main "HOL-Library.Word"
begin

section \<open>CO2 monitor (SCD30, ESP8266): a shallow embedding of \<open>src/main.cpp\<close>\<close>

text \<open>
  The sketch reads a CO2 sensor, raises an e-mail alert with hysteresis and a cooldown,
  publishes the reading over MQTT and drives an LCD and a buzzer. Its functions act on
  two globals and on library objects (lcd, Serial, WiFi, client, smtp, scd30). The model
  passes the globals in a record, appends every library call to a trace, and takes the
  answers of the outside world from an environment that sees the calls made so far.
\<close>

subsection \<open>Sensor values\<close>

text \<open>
  The readings are C++ \<open>float\<close>s. Every finite float is a rational number, so a finite
  value is modelled by the rational it denotes (the two signed zeros are not told apart);
  the infinities and NaN are values of their own. The program only compares readings with
  the integer constants 1000 and 900, which are floats exactly, and converts them to
  \<open>int\<close>.
\<close>

datatype float = Finite rat | PosInf | NegInf | NaN

text \<open>\<open>x >= k\<close> and \<open>x < k\<close> for a float \<open>x\<close> and an integer constant \<open>k\<close>
  that converts to float exactly: every comparison with NaN is false.\<close>

fun float_ge :: "float \<Rightarrow> int \<Rightarrow> bool" where
  "float_ge (Finite q) k = (of_int k \<le> q)"
| "float_ge PosInf k = True"
| "float_ge NegInf k = False"
| "float_ge NaN k = False"

fun float_lt :: "float \<Rightarrow> int \<Rightarrow> bool" where
  "float_lt (Finite q) k = (q < of_int k)"
| "float_lt PosInf k = False"
| "float_lt NegInf k = True"
| "float_lt NaN k = False"

text \<open>\<open>int(x)\<close>: the value is truncated towards zero; the conversion is undefined
  (\<open>None\<close>) when the truncated value does not fit the 32-bit \<open>int\<close> of the target, and for
  the infinities and NaN.\<close>

definition truncate_rat :: "rat \<Rightarrow> int" where
  "truncate_rat q = (if 0 \<le> q then \<lfloor>q\<rfloor> else \<lceil>q\<rceil>)"

fun float_to_int :: "float \<Rightarrow> int option" where
  "float_to_int (Finite q) =
     (let t = truncate_rat q
      in if - 2147483648 \<le> t \<and> t \<le> 2147483647 then Some t else None)"
| "float_to_int PosInf = None"
| "float_to_int NegInf = None"
| "float_to_int NaN = None"

type_synonym reading = "float \<times> float \<times> float"

subsection \<open>Library calls, the world and its environment\<close>

text \<open>
  One constructor for each library call the modelled functions make; a call that returns
  a value carries the value it returned. \<open>CallSendEmailAlert\<close> marks the entry into
  \<open>sendEmailAlert\<close> with its arguments, so that firing a notification can be observed
  even when the function returns at once. \<open>Millis\<close> is the call of \<open>millis()\<close> with
  the value it returned.
\<close>

datatype event =
    LcdClear
  | LcdSetCursor nat nat
  | LcdPrint string
  | LcdPrintInt int
  | LcdWrite nat
  | LcdSetRGB nat nat nat
  | SerialPrintln string
  | Delay nat
  | DigitalWrite nat bool
  | ClientConnected bool
  | ClientConnect bool
  | ClientLoop
  | ScdRead "reading option"
  | ClientPublish string string bool bool
  | WiFiStatus bool
  | SmtpConnect bool
  | SendMail string string bool
  | CallSendEmailAlert float float float
  | Millis "32 word"

text \<open>The globals \<open>lastEmailSent\<close> (an \<open>unsigned long\<close>, 32 bits on the ESP8266) and
  \<open>emailAlertSent\<close>, and the calls made so far, oldest first.\<close>

record world =
  lastEmailSent :: "32 word"
  emailAlertSent :: bool
  trace :: "event list"

text \<open>
  What the libraries answer, given the calls made so far: the sensor
  (\<open>Some\<close> reading for the return value 0), the MQTT client, the WiFi status
  (\<open>True\<close> for \<open>WL_CONNECTED\<close>), the SMTP session and the mail client. \<open>floatStr\<close> is
  Arduino's \<open>String(float, decimalPlaces)\<close>, which is not part of the repository.
\<close>

record env =
  scdRead :: "event list \<Rightarrow> reading option"
  clientConnected :: "event list \<Rightarrow> bool"
  clientConnect :: "event list \<Rightarrow> bool"
  clientPublish :: "event list \<Rightarrow> string \<Rightarrow> string \<Rightarrow> bool"
  wifiConnected :: "event list \<Rightarrow> bool"
  smtpConnect :: "event list \<Rightarrow> bool"
  sendMail :: "event list \<Rightarrow> string \<Rightarrow> string \<Rightarrow> bool"
  floatStr :: "float \<Rightarrow> nat \<Rightarrow> string"

definition emit :: "event \<Rightarrow> world \<Rightarrow> world" where
  "emit ev w = w\<lparr>trace := trace w @ [ev]\<rparr>"

fun emits :: "event list \<Rightarrow> world \<Rightarrow> world" where
  "emits [] w = w"
| "emits (ev # evs) w = emits evs (emit ev w)"

subsection \<open>Constants\<close>

definition CO2_ALERT_THRESHOLD :: int where
  "CO2_ALERT_THRESHOLD = 1000"

definition EMAIL_COOLDOWN :: "32 word" where
  "EMAIL_COOLDOWN = 60000"

definition topic :: string where
  "topic = ''channels/3141928/publish''"

definition buzzer :: nat where
  "buzzer = 14"

subsection \<open>Bounded retry\<close>

text \<open>\<open>for (int i = 0; i < maxRetries; i++)\<close>: \<open>i + 1\<close> cannot overflow, since
  \<open>i < maxRetries\<close>. The result \<open>Some r\<close> is \<open>true\<close> with the reading written to the
  reference arguments, \<open>None\<close> is \<open>false\<close>.\<close>

definition blockingReadMeasurementData :: "env \<Rightarrow> world \<Rightarrow> reading option \<times> world" where
  "blockingReadMeasurementData e w =
     (let r = scdRead e (trace w) in (r, emit (ScdRead r) w))"

function readSensorLoop :: "env \<Rightarrow> int \<Rightarrow> int \<Rightarrow> world \<Rightarrow> reading option \<times> world" where
  "readSensorLoop e i maxRetries w =
     (if i < maxRetries then
        (case blockingReadMeasurementData e w of
           (Some r, w1) \<Rightarrow> (Some r, w1)
         | (None, w1) \<Rightarrow> readSensorLoop e (i + 1) maxRetries (emit (Delay 500) w1))
      else (None, w))"
  by pat_completeness auto
termination
  by (relation "measure (\<lambda>(e, i, maxRetries, w). nat (maxRetries - i))") auto

declare readSensorLoop.simps [simp del]

definition readSensorWithRetry :: "env \<Rightarrow> int \<Rightarrow> world \<Rightarrow> reading option \<times> world" where
  "readSensorWithRetry e maxRetries w = readSensorLoop e 0 maxRetries w"

definition publish :: "env \<Rightarrow> string \<Rightarrow> string \<Rightarrow> bool \<Rightarrow> world \<Rightarrow> bool \<times> world" where
  "publish e tp payload retained w =
     (let r = clientPublish e (trace w) tp payload
      in (r, emit (ClientPublish tp payload retained r) w))"

function publishLoop :: "env \<Rightarrow> string \<Rightarrow> string \<Rightarrow> int \<Rightarrow> int \<Rightarrow> world \<Rightarrow> bool \<times> world" where
  "publishLoop e tp payload i maxRetries w =
     (if i < maxRetries then
        (case publish e tp payload True w of
           (True, w1) \<Rightarrow> (True, w1)
         | (False, w1) \<Rightarrow> publishLoop e tp payload (i + 1) maxRetries (emit (Delay 1000) w1))
      else (False, w))"
  by pat_completeness auto
termination
  by (relation "measure (\<lambda>(e, tp, payload, i, maxRetries, w). nat (maxRetries - i))") auto

declare publishLoop.simps [simp del]

definition publishWithRetry :: "env \<Rightarrow> string \<Rightarrow> string \<Rightarrow> int \<Rightarrow> world \<Rightarrow> bool \<times> world" where
  "publishWithRetry e tp payload maxRetries w = publishLoop e tp payload 0 maxRetries w"

subsection \<open>The e-mail alert\<close>

text \<open>The subject and the body of the message as the function builds them; the degree sign
  of the source is the two bytes C2 B0 of its UTF-8 encoding. The session settings and
  the recipients come from \<open>secrets.h\<close> and are not recorded.\<close>

definition emailSubject :: string where
  "emailSubject = ''ALERTE: Niveau de CO2 eleve detecte''"

definition emailBody :: "env \<Rightarrow> float \<Rightarrow> float \<Rightarrow> float \<Rightarrow> string" where
  "emailBody e co2 temperature humidity =
     ''ALERTE - Qualite de l'' @ [CHR 0x27] @ ''air degradee'' @ [CHR 0x0A, CHR 0x0A] @
     ''Le niveau de CO2 a depasse le seuil d'' @ [CHR 0x27] @ ''alerte.'' @ [CHR 0x0A, CHR 0x0A] @
     ''Donnees actuelles:'' @ [CHR 0x0A] @
     ''- CO2: '' @ floatStr e co2 1 @ '' ppm'' @ [CHR 0x0A] @
     ''- Temperature: '' @ floatStr e temperature 1 @ '' '' @ [CHR 0xC2, CHR 0xB0] @ ''C'' @ [CHR 0x0A] @
     ''- Humidite: '' @ floatStr e humidity 1 @ '' %'' @ [CHR 0x0A, CHR 0x0A] @
     ''Seuil d'' @ [CHR 0x27] @ ''alerte: 1000 ppm'' @ [CHR 0x0A, CHR 0x0A] @
     ''Veuillez aerer la salle immediatement.'' @ [CHR 0x0A]"

definition sendEmailAlert :: "env \<Rightarrow> float \<Rightarrow> float \<Rightarrow> float \<Rightarrow> world \<Rightarrow> world" where
  "sendEmailAlert e co2 temperature humidity w =
     (let w0 = emit (CallSendEmailAlert co2 temperature humidity) w;
          wifi = wifiConnected e (trace w0);
          w1 = emit (WiFiStatus wifi) w0
      in if \<not> wifi then
           emit (SerialPrintln ''WiFi not connected, cannot send email'') w1
         else
           let w2 = emits [SerialPrintln ''Preparing to send email alert...'',
                           LcdClear, LcdSetCursor 0 0, LcdPrint ''Sending Alert...''] w1;
               body = emailBody e co2 temperature humidity;
               connected = smtpConnect e (trace w2);
               w3 = emit (SmtpConnect connected) w2
           in if \<not> connected then
                emits [SerialPrintln ''Connection error'', LcdClear, LcdPrint ''Email Error!''] w3
              else
                let sent = sendMail e (trace w3) emailSubject body;
                    w4 = emit (SendMail emailSubject body sent) w3
                in if \<not> sent then
                     emits [SerialPrintln ''Error sending Email'', LcdClear,
                            LcdPrint ''Email Failed!''] w4
                   else
                     emits [SerialPrintln ''Email sent successfully'', LcdClear,
                            LcdPrint ''Alert Sent!'', Delay 2000, LcdClear] w4)"

text \<open>In the first branch the function calls \<open>millis()\<close> before it tests whether to
  fire; \<open>currentTime\<close> is the value that call returns. The subtraction and the
  comparison are those of \<open>unsigned long\<close>.\<close>

definition checkCO2Alert :: "env \<Rightarrow> 32 word \<Rightarrow> float \<Rightarrow> float \<Rightarrow> float \<Rightarrow> world \<Rightarrow> world" where
  "checkCO2Alert e currentTime co2 temperature humidity w =
     (if float_ge co2 CO2_ALERT_THRESHOLD then
        let w0 = emit (Millis currentTime) w
        in if \<not> emailAlertSent w0 \<or> EMAIL_COOLDOWN \<le> currentTime - lastEmailSent w0 then
             let w1 = sendEmailAlert e co2 temperature humidity w0;
                 w2 = w1\<lparr>lastEmailSent := currentTime, emailAlertSent := True\<rparr>
             in emits [LcdSetRGB 255 0 0, Delay 1000, LcdSetRGB 255 255 255] w2
           else w0
      else
        (if float_lt co2 (CO2_ALERT_THRESHOLD - 100) then w\<lparr>emailAlertSent := False\<rparr>
         else w))"

subsection \<open>The main loop\<close>

text \<open>\<open>None\<close> is a reconnection loop that never ends.\<close>

partial_function (option) reconnectMQTT :: "env \<Rightarrow> world \<Rightarrow> world option" where
  "reconnectMQTT e w =
     (let c = clientConnected e (trace w);
          w1 = emit (ClientConnected c) w
      in if \<not> c then
           let w2 = emits [LcdClear, LcdSetCursor 0 0, LcdPrint ''Connecting MQTT''] w1;
               ok = clientConnect e (trace w2);
               w3 = emit (ClientConnect ok) w2
           in if ok then
                reconnectMQTT e
                  (emits [SerialPrintln ''connected!'', LcdSetCursor 0 1,
                          LcdPrint ''MQTT Connected'', Delay 1000, LcdClear] w3)
              else
                reconnectMQTT e
                  (emits [LcdSetCursor 0 1, LcdPrint ''MQTT Failed'', Delay 5000] w3)
         else Some w1)"

text \<open>How one pass through \<open>loop()\<close> ends: at its last statement, at the early
  \<open>return\<close> after a failed acquisition, or at a conversion \<open>int(x)\<close> whose behaviour is
  undefined; each with the world reached there.\<close>

datatype cycle = Completed world | SensorError world | ConversionUndefined world

fun cycleWorld :: "cycle \<Rightarrow> world" where
  "cycleWorld (Completed w) = w"
| "cycleWorld (SensorError w) = w"
| "cycleWorld (ConversionUndefined w) = w"

text \<open>The first two statements of \<open>loop()\<close>: reconnect when the client is not
  connected, then \<open>client.loop()\<close>.\<close>

definition loopConnect :: "env \<Rightarrow> world \<Rightarrow> world option" where
  "loopConnect e w =
     (let c = clientConnected e (trace w);
          w1 = emit (ClientConnected c) w
      in case (if \<not> c then reconnectMQTT e w1 else Some w1) of
           None \<Rightarrow> None
         | Some w2 \<Rightarrow> Some (emit ClientLoop w2))"

text \<open>The last part of \<open>loop()\<close>, from \<open>lcd.setCursor(0, 0)\<close> on: the reading on the
  display, then the buzzer.\<close>

definition loopDisplay :: "float \<Rightarrow> float \<Rightarrow> float \<Rightarrow> world \<Rightarrow> cycle" where
  "loopDisplay co2 temperature humidity w =
     (let w1 = emits [LcdSetCursor 0 0, LcdPrint ''CO2: ''] w
      in case float_to_int co2 of
           None \<Rightarrow> ConversionUndefined w1
         | Some ico2 \<Rightarrow>
             let w2 = emits [LcdPrintInt ico2, LcdPrint '' ppm'',
                             LcdSetCursor 0 1, LcdPrint ''T: ''] w1
             in (case float_to_int temperature of
                   None \<Rightarrow> ConversionUndefined w2
                 | Some itemp \<Rightarrow>
                     let w3 = emits [LcdPrintInt itemp, LcdWrite 0xDF, LcdPrint ''C'',
                                     LcdSetCursor 8 1, LcdPrint ''H: ''] w2
                     in (case float_to_int humidity of
                           None \<Rightarrow> ConversionUndefined w3
                         | Some ihum \<Rightarrow>
                             let w4 = emits [LcdPrintInt ihum, LcdWrite 0x25] w3;
                                 w5 = (if 1000 < ico2
                                       then emits [DigitalWrite buzzer True, Delay 1000] w4
                                       else w4)
                             in Completed (emits [DigitalWrite buzzer False, Delay 1000] w5))))"

definition loop :: "env \<Rightarrow> 32 word \<Rightarrow> world \<Rightarrow> cycle option" where
  "loop e currentTime w =
     (case loopConnect e w of
        None \<Rightarrow> None
      | Some w3 \<Rightarrow>
          Some (case readSensorWithRetry e 3 w3 of
             (None, w4) \<Rightarrow>
               SensorError (emits [LcdClear, LcdPrint ''Sensor Error!'', Delay 2000] w4)
           | (Some (co2, temperature, humidity), w4) \<Rightarrow>
               let w5 = checkCO2Alert e currentTime co2 temperature humidity w4;
                   payload = ''field1='' @ floatStr e co2 2 @
                             ''&field2='' @ floatStr e temperature 2 @
                             ''&field3='' @ floatStr e humidity 2 @
                             ''&status=MQTTPUBLISH'';
                   w6 = emits [SerialPrintln ''Publishing payload:'',
                               SerialPrintln payload, Delay 2000, LcdClear] w5;
                   (ok, w7) = publishWithRetry e topic payload 3 w6;
                   w8 = (if \<not> ok
                         then emits [LcdPrint ''Publish Failed!'', Delay 2000, LcdClear] w7
                         else w7)
               in loopDisplay co2 temperature humidity w8))"

subsection \<open>Observing notifications and time\<close>

text \<open>A notification is fired when \<open>sendEmailAlert\<close> is entered.\<close>

fun isEmailCall :: "event \<Rightarrow> bool" where
  "isEmailCall (CallSendEmailAlert c t h) = True"
| "isEmailCall ev = False"

definition emailCalls :: "world \<Rightarrow> nat" where
  "emailCalls w = length (filter isEmailCall (trace w))"

definition fires :: "env \<Rightarrow> 32 word \<Rightarrow> float \<Rightarrow> float \<Rightarrow> float \<Rightarrow> world \<Rightarrow> bool" where
  "fires e currentTime co2 temperature humidity w =
     (emailCalls w < emailCalls (checkCO2Alert e currentTime co2 temperature humidity w))"

text \<open>The value of Arduino's \<open>millis()\<close> when \<open>t\<close> milliseconds have passed since the
  start: the 32-bit counter wraps around.\<close>

definition millis :: "nat \<Rightarrow> 32 word" where
  "millis t = of_nat t"

text \<open>A sample is a reading with the time, in milliseconds since the start, at which
  \<open>checkCO2Alert\<close> evaluates it. \<open>firedAt\<close> evaluates the samples in turn and lists
  the times of those that fired a notification.\<close>

type_synonym sample = "float \<times> float \<times> float \<times> nat"

fun firedAt :: "env \<Rightarrow> sample list \<Rightarrow> world \<Rightarrow> nat list" where
  "firedAt e [] w = []"
| "firedAt e ((co2, temperature, humidity, t) # rs) w =
     (if fires e (millis t) co2 temperature humidity w then [t] else []) @
     firedAt e rs (checkCO2Alert e (millis t) co2 temperature humidity w)"

fun sampleCO2 :: "sample \<Rightarrow> float" where
  "sampleCO2 (co2, temperature, humidity, t) = co2"

fun sampleTime :: "sample \<Rightarrow> nat" where
  "sampleTime (co2, temperature, humidity, t) = t"

text \<open>Two times are apart when the second is at least the cooldown of 60000 ms after the
  first.\<close>

definition apart :: "nat \<Rightarrow> nat \<Rightarrow> bool" where
  "apart a b = (a + 60000 \<le> b)"

subsection \<open>Observing the calls of a run\<close>

text \<open>The calls a run from \<open>w\<close> to \<open>w'\<close> has added, and the calls of one pass through
  \<open>loop()\<close>.\<close>

definition newEvents :: "world \<Rightarrow> world \<Rightarrow> event list" where
  "newEvents w w' = drop (length (trace w)) (trace w')"

definition cycleEvents :: "world \<Rightarrow> cycle option \<Rightarrow> event list" where
  "cycleEvents w r = (case r of None \<Rightarrow> [] | Some c \<Rightarrow> newEvents w (cycleWorld c))"

fun completed :: "cycle option \<Rightarrow> bool" where
  "completed (Some (Completed w)) = True"
| "completed r = False"

fun isScdRead :: "event \<Rightarrow> bool" where
  "isScdRead (ScdRead r) = True"
| "isScdRead ev = False"

fun isPublish :: "event \<Rightarrow> bool" where
  "isPublish (ClientPublish tp payload retained ok) = True"
| "isPublish ev = False"

text \<open>A mail that the mail client reports as sent.\<close>

fun isDelivered :: "event \<Rightarrow> bool" where
  "isDelivered (SendMail subject body sent) = sent"
| "isDelivered ev = False"

fun isBuzzer :: "event \<Rightarrow> bool" where
  "isBuzzer (DigitalWrite pin v) = True"
| "isBuzzer ev = False"

text \<open>\<open>k\<close> failed attempts, each followed by its delay.\<close>

definition failedReads :: "nat \<Rightarrow> event list" where
  "failedReads k = concat (replicate k [ScdRead None, Delay 500])"

definition failedPublishes :: "string \<Rightarrow> string \<Rightarrow> nat \<Rightarrow> event list" where
  "failedPublishes tp payload k =
     concat (replicate k [ClientPublish tp payload True False, Delay 1000])"

text \<open>Calls that neither publish, nor enter \<open>sendEmailAlert\<close>, nor write to the buzzer
  pin; and two worlds with the same alert state.\<close>

definition quiet :: "event \<Rightarrow> bool" where
  "quiet ev = (\<not> isPublish ev \<and> \<not> isEmailCall ev \<and> \<not> isBuzzer ev)"

definition unchanged :: "world \<Rightarrow> world \<Rightarrow> bool" where
  "unchanged w w' =
     (emailAlertSent w' = emailAlertSent w \<and> lastEmailSent w' = lastEmailSent w)"

text \<open>The wire format in the words of the specification: key=value pairs joined by
  \<open>&\<close>, in the order field1 (co2), field2 (temperature), field3 (humidity), status.\<close>

fun joinPairs :: "(string \<times> string) list \<Rightarrow> string" where
  "joinPairs [] = []"
| "joinPairs [(k, v)] = k @ ''='' @ v"
| "joinPairs ((k, v) # kv # rest) = k @ ''='' @ v @ ''&'' @ joinPairs (kv # rest)"

definition specPayload :: "string \<Rightarrow> string \<Rightarrow> string \<Rightarrow> string \<Rightarrow> string" where
  "specPayload co2 temperature humidity marker =
     joinPairs [(''field1'', co2), (''field2'', temperature), (''field3'', humidity),
                (''status'', marker)]"

definition isAscii :: "char \<Rightarrow> bool" where
  "isAscii c = (of_char c < (128 :: nat))"

subsection \<open>Concrete worlds and environments\<close>

text \<open>The globals as the sketch initialises them, and the state after an alert raised
  \<open>t\<close> ms after the start.\<close>

definition bootWorld :: world where
  "bootWorld = \<lparr>lastEmailSent = 0, emailAlertSent = False, trace = []\<rparr>"

definition armedWorld :: "nat \<Rightarrow> world" where
  "armedWorld t = \<lparr>lastEmailSent = millis t, emailAlertSent = True, trace = []\<rparr>"

text \<open>A stand-in for \<open>String(float, decimalPlaces)\<close> in concrete runs, and two
  environments: one where the sensor delivers the reading \<open>r\<close> and every service answers,
  one where the MQTT client is connected and everything else fails.\<close>

definition demoStr :: "float \<Rightarrow> nat \<Rightarrow> string" where
  "demoStr x d =
     (case x of
        Finite q \<Rightarrow> (if d = 1 then ''#.#'' else ''#.##'')
      | PosInf \<Rightarrow> ''inf''
      | NegInf \<Rightarrow> ''-inf''
      | NaN \<Rightarrow> ''nan'')"

definition env_up :: "reading \<Rightarrow> env" where
  "env_up r =
     \<lparr>scdRead = (\<lambda>h. Some r), clientConnected = (\<lambda>h. True), clientConnect = (\<lambda>h. True),
      clientPublish = (\<lambda>h tp p. True), wifiConnected = (\<lambda>h. True),
      smtpConnect = (\<lambda>h. True), sendMail = (\<lambda>h s b. True), floatStr = demoStr\<rparr>"

definition env_down :: env where
  "env_down =
     \<lparr>scdRead = (\<lambda>h. None), clientConnected = (\<lambda>h. True), clientConnect = (\<lambda>h. False),
      clientPublish = (\<lambda>h tp p. False), wifiConnected = (\<lambda>h. False),
      smtpConnect = (\<lambda>h. False), sendMail = (\<lambda>h s b. False), floatStr = demoStr\<rparr>"

text \<open>Two more environments for the ways a dispatch can fail once the WiFi is up: the
  SMTP server refuses the connection; the connection is made and sending fails.\<close>

definition env_smtp_refused :: env where
  "env_smtp_refused =
     \<lparr>scdRead = (\<lambda>h. None), clientConnected = (\<lambda>h. True), clientConnect = (\<lambda>h. True),
      clientPublish = (\<lambda>h tp p. True), wifiConnected = (\<lambda>h. True),
      smtpConnect = (\<lambda>h. False), sendMail = (\<lambda>h s b. False), floatStr = demoStr\<rparr>"

definition env_send_fails :: env where
  "env_send_fails =
     \<lparr>scdRead = (\<lambda>h. None), clientConnected = (\<lambda>h. True), clientConnect = (\<lambda>h. True),
      clientPublish = (\<lambda>h tp p. True), wifiConnected = (\<lambda>h. True),
      smtpConnect = (\<lambda>h. True), sendMail = (\<lambda>h s b. False), floatStr = demoStr\<rparr>"

section \<open>Properties\<close>

subsection \<open>Traces and the alert state\<close>

lemma trace_emit [simp]: "trace (emit ev w) = trace w @ [ev]"
  by (simp add: emit_def)

lemma armed_emit [simp]: "emailAlertSent (emit ev w) = emailAlertSent w"
  by (simp add: emit_def)

lemma last_emit [simp]: "lastEmailSent (emit ev w) = lastEmailSent w"
  by (simp add: emit_def)

lemma trace_emits [simp]: "trace (emits evs w) = trace w @ evs"
  by (induction evs arbitrary: w) simp_all

lemma armed_emits [simp]: "emailAlertSent (emits evs w) = emailAlertSent w"
  by (induction evs arbitrary: w) simp_all

lemma last_emits [simp]: "lastEmailSent (emits evs w) = lastEmailSent w"
  by (induction evs arbitrary: w) simp_all

lemma newEvents_append: "trace w' = trace w @ evs \<Longrightarrow> newEvents w w' = evs"
  by (simp add: newEvents_def)

lemma armed_sendEmailAlert [simp]:
  "emailAlertSent (sendEmailAlert e c t h w) = emailAlertSent w"
  by (simp add: sendEmailAlert_def Let_def del: emits.simps)

lemma last_sendEmailAlert [simp]:
  "lastEmailSent (sendEmailAlert e c t h w) = lastEmailSent w"
  by (simp add: sendEmailAlert_def Let_def del: emits.simps)

lemma trace_sendEmailAlert:
  "\<exists>evs. trace (sendEmailAlert e c t h w) = trace w @ CallSendEmailAlert c t h # evs \<and>
         filter isEmailCall evs = []"
  by (simp add: sendEmailAlert_def Let_def del: emits.simps)

lemma emailCalls_emit [simp]:
  "emailCalls (emit ev w) = (if isEmailCall ev then Suc (emailCalls w) else emailCalls w)"
  by (simp add: emailCalls_def)

lemma emailCalls_sendEmailAlert [simp]:
  "emailCalls (sendEmailAlert e c t h w) = Suc (emailCalls w)"
  using trace_sendEmailAlert [of e c t h w] by (auto simp: emailCalls_def)

text \<open>When a notification fires, and what an evaluation does to the state and the trace.\<close>

lemma fires_iff:
  "fires e now c t h w \<longleftrightarrow>
     float_ge c 1000 \<and> (\<not> emailAlertSent w \<or> 60000 \<le> now - lastEmailSent w)"
  by (simp add: fires_def checkCO2Alert_def Let_def emailCalls_def CO2_ALERT_THRESHOLD_def
        EMAIL_COOLDOWN_def del: emits.simps)
     (simp add: emailCalls_def [symmetric])

lemma armed_checkCO2Alert:
  "emailAlertSent (checkCO2Alert e now c t h w) =
     (if float_ge c 1000 then True else if float_lt c 900 then False else emailAlertSent w)"
  by (simp add: checkCO2Alert_def Let_def CO2_ALERT_THRESHOLD_def del: emits.simps)

lemma last_checkCO2Alert:
  "lastEmailSent (checkCO2Alert e now c t h w) =
     (if fires e now c t h w then now else lastEmailSent w)"
  by (simp add: fires_iff)
     (simp add: checkCO2Alert_def Let_def CO2_ALERT_THRESHOLD_def EMAIL_COOLDOWN_def
        del: emits.simps)

lemma trace_checkCO2Alert:
  "trace (checkCO2Alert e now c t h w) =
     (if fires e now c t h w
      then trace (sendEmailAlert e c t h (emit (Millis now) w)) @
           [LcdSetRGB 255 0 0, Delay 1000, LcdSetRGB 255 255 255]
      else if float_ge c 1000 then trace w @ [Millis now]
      else trace w)"
  by (simp add: fires_iff)
     (simp add: checkCO2Alert_def Let_def CO2_ALERT_THRESHOLD_def EMAIL_COOLDOWN_def
        del: emits.simps)

subsection \<open>The millisecond counter\<close>

lemma millis_diff:
  assumes "t0 \<le> t"
  shows "unat (millis t - millis t0) = (t - t0) mod 2 ^ 32"
proof -
  have "millis t - millis t0 = (of_nat (t - t0) :: 32 word)"
    using assms by (simp add: millis_def)
  then show ?thesis by (simp add: unat_of_nat)
qed

lemma cooldown_le_iff: "(60000 \<le> (x :: 32 word)) = (60000 \<le> unat x)"
  by (simp add: word_le_nat_alt)

lemma millis_elapsed:
  assumes "t0 \<le> t" and "60000 \<le> millis t - millis t0"
  shows "t0 + 60000 \<le> t"
proof -
  have "60000 \<le> (t - t0) mod 2 ^ 32"
    using assms by (simp add: cooldown_le_iff millis_diff)
  also have "\<dots> \<le> t - t0" by (rule mod_less_eq_dividend)
  finally show ?thesis using assms(1) by simp
qed

subsection \<open>Hysteresis and cooldown of the alert\<close>

text \<open>C1 (hysteresis): from an armed state, a reading with co2 in [900, 1000) changes
  nothing at all, so the state stays armed and no notification is fired; and whatever the
  reading, the state is disarmed afterwards only if co2 < 900.\<close>

theorem hysteresis_band:
  "emailAlertSent w \<Longrightarrow>
     (900 \<le> q \<and> q < 1000 \<longrightarrow>
        checkCO2Alert e now (Finite q) t h w = w \<and> \<not> fires e now (Finite q) t h w) \<and>
     (\<not> emailAlertSent (checkCO2Alert e now c t' h' w) \<longrightarrow> float_lt c 900)"
  by (simp add: fires_iff armed_checkCO2Alert split: if_splits)
     (simp add: checkCO2Alert_def CO2_ALERT_THRESHOLD_def)

theorem hysteresis_band_witness:
  "emailAlertSent (armedWorld 0) \<and> (900 :: rat) \<le> 950 \<and> (950 :: rat) < 1000 \<and>
   checkCO2Alert env_down 5000 (Finite 950) (Finite 22) (Finite 40) (armedWorld 0) = armedWorld 0 \<and>
   \<not> fires env_down 5000 (Finite 950) (Finite 22) (Finite 40) (armedWorld 0) \<and>
   \<not> emailAlertSent (checkCO2Alert env_down 5000 (Finite 850) (Finite 22) (Finite 40) (armedWorld 0)) \<and>
   float_lt (Finite 850) 900"
  using hysteresis_band [of "armedWorld 0" 950 env_down 5000 "Finite 22" "Finite 40"
      "Finite 850" "Finite 22" "Finite 40"]
  by (simp add: armedWorld_def checkCO2Alert_def CO2_ALERT_THRESHOLD_def)

lemma firedAt_after_notification:
  assumes "\<forall>r\<in>set rs. float_ge (sampleCO2 r) 1000"
    and "sorted (map sampleTime rs)"
    and "\<forall>r\<in>set rs. t0 \<le> sampleTime r"
    and "emailAlertSent w" and "lastEmailSent w = millis t0"
  shows "(\<forall>x\<in>set (firedAt e rs w). t0 + 60000 \<le> x) \<and> sorted_wrt apart (firedAt e rs w)"
  using assms
proof (induction rs arbitrary: w t0)
  case Nil
  then show ?case by simp
next
  case (Cons r rs)
  obtain c t h tm where r: "r = (c, t, h, tm)" by (cases r) auto
  from Cons.prems r have hi: "float_ge c 1000" and le: "t0 \<le> tm" by auto
  have all: "\<forall>r\<in>set rs. float_ge (sampleCO2 r) 1000" using Cons.prems(1) by simp
  have srt: "sorted (map sampleTime rs)" using Cons.prems(2) by simp
  let ?w = "checkCO2Alert e (millis tm) c t h w"
  show ?case
  proof (cases "fires e (millis tm) c t h w")
    case True
    with Cons.prems(4,5) have "60000 \<le> millis tm - millis t0"
      by (simp add: fires_iff)
    with le have sep: "t0 + 60000 \<le> tm" by (rule millis_elapsed)
    have later: "\<forall>r\<in>set rs. tm \<le> sampleTime r" using Cons.prems(2) r by simp
    have armed: "emailAlertSent ?w" using hi by (simp add: armed_checkCO2Alert)
    have stamp: "lastEmailSent ?w = millis tm" using True by (simp add: last_checkCO2Alert)
    from Cons.IH [OF all srt later armed stamp]
    have rest: "\<forall>x\<in>set (firedAt e rs ?w). tm + 60000 \<le> x"
      and ord: "sorted_wrt apart (firedAt e rs ?w)" by simp_all
    from rest sep have "\<forall>x\<in>set (firedAt e rs ?w). t0 + 60000 \<le> x" by auto
    moreover from rest have "\<forall>x\<in>set (firedAt e rs ?w). apart tm x" by (simp add: apart_def)
    ultimately show ?thesis using ord sep True r by simp
  next
    case False
    have armed: "emailAlertSent ?w" using hi by (simp add: armed_checkCO2Alert)
    have stamp: "lastEmailSent ?w = millis t0"
      using False Cons.prems(5) by (simp add: last_checkCO2Alert)
    have later: "\<forall>r\<in>set rs. t0 \<le> sampleTime r" using Cons.prems(3) by simp
    from Cons.IH [OF all srt later armed stamp] False r show ?thesis by simp
  qed
qed

lemma firedAt_apart:
  assumes "\<forall>r\<in>set rs. float_ge (sampleCO2 r) 1000"
    and "sorted (map sampleTime rs)"
  shows "sorted_wrt apart (firedAt e rs w)"
  using assms
proof (induction rs arbitrary: w)
  case Nil
  then show ?case by simp
next
  case (Cons r rs)
  obtain c t h tm where r: "r = (c, t, h, tm)" by (cases r) auto
  from Cons.prems r have hi: "float_ge c 1000" by auto
  have all: "\<forall>r\<in>set rs. float_ge (sampleCO2 r) 1000" using Cons.prems(1) by simp
  have srt: "sorted (map sampleTime rs)" using Cons.prems(2) by simp
  let ?w = "checkCO2Alert e (millis tm) c t h w"
  show ?case
  proof (cases "fires e (millis tm) c t h w")
    case True
    have later: "\<forall>r\<in>set rs. tm \<le> sampleTime r" using Cons.prems(2) r by simp
    have armed: "emailAlertSent ?w" using hi by (simp add: armed_checkCO2Alert)
    have stamp: "lastEmailSent ?w = millis tm" using True by (simp add: last_checkCO2Alert)
    from firedAt_after_notification [OF all srt later armed stamp]
    have rest: "\<forall>x\<in>set (firedAt e rs ?w). tm + 60000 \<le> x"
      and ord: "sorted_wrt apart (firedAt e rs ?w)" by simp_all
    from rest have "\<forall>x\<in>set (firedAt e rs ?w). apart tm x" by (simp add: apart_def)
    with ord True r show ?thesis by simp
  next
    case False
    with Cons.IH [OF all srt, of ?w] r show ?thesis by simp
  qed
qed

text \<open>C2 (cooldown): when every sample has co2 >= 1000 and the samples come in the order of
  time, any two notifications fired along the sequence are at least 60000 ms apart, the
  first of them included; and from an armed state a notification is fired only if
  \<open>now - lastEmailSent\<close> (in 32-bit arithmetic) is at least 60000.\<close>

theorem cooldown_separation:
  assumes "\<forall>r\<in>set rs. float_ge (sampleCO2 r) 1000"
    and "sorted (map sampleTime rs)"
  shows "sorted_wrt apart (firedAt e rs w) \<and>
         (emailAlertSent w \<and> fires e now c t h w \<longrightarrow> 60000 \<le> now - lastEmailSent w)"
  using firedAt_apart [OF assms] by (simp add: fires_iff)

theorem cooldown_separation_witness:
  "sorted [30000, 90000, 100000, 150000 :: nat] \<and>
   firedAt env_down
     [(Finite 1300, Finite 22, Finite 40, 30000), (Finite 1300, Finite 22, Finite 40, 90000),
      (PosInf, Finite 22, Finite 40, 100000), (Finite 1000, Finite 22, Finite 40, 150000)]
     (armedWorld 0) = [90000, 150000] \<and>
   apart 90000 150000 \<and>
   emailAlertSent (armedWorld 0) \<and>
   fires env_down 90000 (Finite 1300) (Finite 22) (Finite 40) (armedWorld 0) \<and>
   (60000 :: 32 word) \<le> 90000 - lastEmailSent (armedWorld 0)"
  using cooldown_separation [of
      "[(Finite 1300, Finite 22, Finite 40, 30000), (Finite 1300, Finite 22, Finite 40, 90000),
        (PosInf, Finite 22, Finite 40, 100000), (Finite 1000, Finite 22, Finite 40, 150000)]"
      env_down "armedWorld 0" 90000 "Finite 1300" "Finite 22" "Finite 40"]
  by (simp add: fires_iff armed_checkCO2Alert last_checkCO2Alert armedWorld_def millis_def
        apart_def)

text \<open>C9 (the cooldown does not survive disarming): from a disarmed state, a reading of at
  least 1000, then one below 900, then one of at least 1000 again fire a notification on the
  first and on the third sample, whatever the three times are; so two notifications can be
  closer together than the cooldown.\<close>

theorem cooldown_reset_by_disarming:
  assumes "\<not> emailAlertSent w" and "float_ge c1 1000" and "float_lt c2 900"
    and "float_ge c3 1000"
  shows "firedAt e [(c1, a1, b1, t1), (c2, a2, b2, t2), (c3, a3, b3, t3)] w = [t1, t3]"
proof -
  have low: "\<not> float_ge c2 1000" using assms(3) by (cases c2) auto
  show ?thesis using assms low
    by (simp add: fires_iff armed_checkCO2Alert)
qed

theorem cooldown_reset_by_disarming_witness:
  "\<not> emailAlertSent bootWorld \<and> float_ge (Finite 1200) 1000 \<and> float_lt (Finite 850) 900 \<and>
   firedAt env_down
     [(Finite 1200, Finite 22, Finite 40, 0), (Finite 850, Finite 22, Finite 40, 2000),
      (Finite 1200, Finite 22, Finite 40, 4000)] bootWorld = [0, 4000] \<and>
   \<not> apart 0 4000"
  using cooldown_reset_by_disarming [of bootWorld "Finite 1200" "Finite 850" "Finite 1200"
      env_down "Finite 22" "Finite 40" 0 "Finite 22" "Finite 40" 2000 "Finite 22" "Finite 40" 4000]
  by (simp add: bootWorld_def apart_def)

text \<open>C10 (wrap-around of the millisecond counter): in an armed state whose last
  notification was at time \<open>t1\<close>, a reading of at least 1000 evaluated at a later time
  \<open>t2\<close>, less than \<open>2 ^ 32\<close> ms after \<open>t1\<close>, fires exactly when at least 60000 ms have
  passed, although the program only sees the two times modulo \<open>2 ^ 32\<close>.\<close>

theorem cooldown_wraparound:
  assumes "t1 \<le> t2" and "t2 - t1 < 2 ^ 32"
    and "emailAlertSent w" and "lastEmailSent w = millis t1" and "float_ge c 1000"
  shows "fires e (millis t2) c t h w \<longleftrightarrow> 60000 \<le> t2 - t1"
  using assms by (simp add: fires_iff cooldown_le_iff millis_diff)

theorem cooldown_wraparound_witness:
  "(4294966296 :: nat) \<le> 4295026296 \<and> (4295026296 - 4294966296 :: nat) < 2 ^ 32 \<and>
   emailAlertSent (armedWorld 4294966296) \<and>
   lastEmailSent (armedWorld 4294966296) = millis 4294966296 \<and>
   millis 4295026296 = 59000 \<and> millis 4294966296 = 4294966296 \<and>
   fires env_down (millis 4295026296) (Finite 1200) (Finite 22) (Finite 40)
     (armedWorld 4294966296) \<and>
   (60000 :: nat) \<le> 4295026296 - 4294966296"
  using cooldown_wraparound [of 4294966296 4295026296 "armedWorld 4294966296" "Finite 1200"
      env_down "Finite 22" "Finite 40"]
  by (simp add: armedWorld_def millis_def)

lemma firedAt_suppressed:
  assumes "emailAlertSent w"
    and "\<forall>r\<in>set rs. \<not> float_lt (sampleCO2 r) 900 \<and>
           millis (sampleTime r) - lastEmailSent w < 60000"
  shows "firedAt e rs w = []"
  using assms
proof (induction rs arbitrary: w)
  case Nil
  then show ?case by simp
next
  case (Cons r rs)
  obtain c t h tm where r: "r = (c, t, h, tm)" by (cases r) auto
  let ?w = "checkCO2Alert e (millis tm) c t h w"
  from Cons.prems r have band: "\<not> float_lt c 900"
    and early: "millis tm - lastEmailSent w < 60000" by auto
  from early Cons.prems(1) have nf: "\<not> fires e (millis tm) c t h w"
    by (simp add: fires_iff not_le)
  from band Cons.prems(1) have armed: "emailAlertSent ?w"
    by (simp add: armed_checkCO2Alert)
  from nf have stamp: "lastEmailSent ?w = lastEmailSent w"
    by (simp add: last_checkCO2Alert)
  from Cons.prems(2) stamp
  have "\<forall>r\<in>set rs. \<not> float_lt (sampleCO2 r) 900 \<and>
          millis (sampleTime r) - lastEmailSent ?w < 60000"
    by simp
  from Cons.IH [OF armed this] nf r show ?case by simp
qed

text \<open>C8 (arming although the dispatch fails): when the alert condition holds, the state
  after the evaluation is armed with \<open>lastEmailSent = now\<close>, whatever the environment
  answers to \<open>sendEmailAlert\<close> (WiFi down, SMTP connection refused, sending failed). The
  next evaluation, of any reading in any environment, then fires nothing as long as less
  than 60000 ms have passed on the counter; and neither does any run of later evaluations
  within that time whose readings are not below 900.\<close>

theorem arming_despite_dispatch:
  assumes "float_ge c 1000"
    and "\<not> emailAlertSent w \<or> 60000 \<le> now - lastEmailSent w"
  shows "emailAlertSent (checkCO2Alert e now c t h w) \<and>
         lastEmailSent (checkCO2Alert e now c t h w) = now \<and>
         (now' - now < 60000 \<longrightarrow>
            \<not> fires e' now' c' t' h' (checkCO2Alert e now c t h w)) \<and>
         ((\<forall>r\<in>set rs. \<not> float_lt (sampleCO2 r) 900 \<and> millis (sampleTime r) - now < 60000) \<longrightarrow>
            firedAt e' rs (checkCO2Alert e now c t h w) = [])"
proof -
  let ?w = "checkCO2Alert e now c t h w"
  from assms have f: "fires e now c t h w" by (simp add: fires_iff)
  from assms(1) have a: "emailAlertSent ?w" by (simp add: armed_checkCO2Alert)
  from f have l: "lastEmailSent ?w = now" by (simp add: last_checkCO2Alert)
  from a l have n: "now' - now < 60000 \<longrightarrow> \<not> fires e' now' c' t' h' ?w"
    by (simp add: fires_iff not_le)
  have "firedAt e' rs ?w = []"
    if "\<forall>r\<in>set rs. \<not> float_lt (sampleCO2 r) 900 \<and> millis (sampleTime r) - now < 60000"
    using firedAt_suppressed [OF a, of rs e'] that l by simp
  with a l n show ?thesis by blast
qed

theorem arming_despite_dispatch_witness:
  "float_ge (Finite 1200) 1000 \<and> \<not> emailAlertSent bootWorld \<and>
   newEvents bootWorld (checkCO2Alert env_down 7000 (Finite 1200) (Finite 22) (Finite 40) bootWorld) =
     [Millis 7000, CallSendEmailAlert (Finite 1200) (Finite 22) (Finite 40), WiFiStatus False,
      SerialPrintln ''WiFi not connected, cannot send email'',
      LcdSetRGB 255 0 0, Delay 1000, LcdSetRGB 255 255 255] \<and>
   emailAlertSent (checkCO2Alert env_down 7000 (Finite 1200) (Finite 22) (Finite 40) bootWorld) \<and>
   lastEmailSent (checkCO2Alert env_down 7000 (Finite 1200) (Finite 22) (Finite 40) bootWorld) = 7000 \<and>
   filter isDelivered (trace
     (checkCO2Alert env_smtp_refused 7000 (Finite 1200) (Finite 22) (Finite 40) bootWorld)) = [] \<and>
   emailAlertSent
     (checkCO2Alert env_smtp_refused 7000 (Finite 1200) (Finite 22) (Finite 40) bootWorld) \<and>
   filter isDelivered (trace
     (checkCO2Alert env_send_fails 7000 (Finite 1200) (Finite 22) (Finite 40) bootWorld)) = [] \<and>
   emailAlertSent
     (checkCO2Alert env_send_fails 7000 (Finite 1200) (Finite 22) (Finite 40) bootWorld) \<and>
   (9000 - 7000 :: 32 word) < 60000 \<and>
   \<not> fires (env_up (Finite 1500, Finite 22, Finite 40)) 9000 (Finite 1500) (Finite 22) (Finite 40)
       (checkCO2Alert env_down 7000 (Finite 1200) (Finite 22) (Finite 40) bootWorld) \<and>
   firedAt (env_up (Finite 1500, Finite 22, Finite 40))
     [(Finite 1500, Finite 22, Finite 40, 9000), (Finite 950, Finite 22, Finite 40, 20000),
      (Finite 2000, Finite 22, Finite 40, 66999)]
     (checkCO2Alert env_down 7000 (Finite 1200) (Finite 22) (Finite 40) bootWorld) = []"
  using arming_despite_dispatch [where c = "Finite 1200" and w = bootWorld and now = 7000
      and e = env_down and t = "Finite 22" and h = "Finite 40" and now' = 9000
      and e' = "env_up (Finite 1500, Finite 22, Finite 40)" and c' = "Finite 1500"
      and t' = "Finite 22" and h' = "Finite 40"
      and rs = "[(Finite 1500, Finite 22, Finite 40, 9000),
                 (Finite 950, Finite 22, Finite 40, 20000),
                 (Finite 2000, Finite 22, Finite 40, 66999)]"]
    arming_despite_dispatch [where c = "Finite 1200" and w = bootWorld and now = 7000
      and e = env_smtp_refused and t = "Finite 22" and h = "Finite 40" and now' = 9000
      and e' = env_down and c' = "Finite 1500" and t' = "Finite 22" and h' = "Finite 40"
      and rs = "[]"]
    arming_despite_dispatch [where c = "Finite 1200" and w = bootWorld and now = 7000
      and e = env_send_fails and t = "Finite 22" and h = "Finite 40" and now' = 9000
      and e' = env_down and c' = "Finite 1500" and t' = "Finite 22" and h' = "Finite 40"
      and rs = "[]"]
  by (simp add: bootWorld_def newEvents_def trace_checkCO2Alert fires_iff sendEmailAlert_def
        env_down_def env_smtp_refused_def env_send_fails_def Let_def millis_def)

text \<open>C6 (purity of the alert evaluation), as the code has it: \<open>checkCO2Alert\<close> is not free
  of input and output. Whenever co2 >= 1000 it first reads the clock itself, by a call of
  \<open>millis()\<close>. When it fires, it then calls \<open>sendEmailAlert\<close> itself and flashes the display
  (red, 1000 ms, white). When it does not fire, the call of \<open>millis()\<close> is its only call if
  co2 >= 1000, and it makes no call if co2 < 1000. Only its effect on the alert state, and
  whether it fires, are a function of the alert state, the co2 value and the time that
  \<open>millis()\<close> returned alone: the environment, the other two values and the trace play no
  part.\<close>

theorem checkCO2Alert_state_pure_io_inside:
  "(emailAlertSent w1 = emailAlertSent w2 \<and> lastEmailSent w1 = lastEmailSent w2 \<longrightarrow>
      emailAlertSent (checkCO2Alert e1 now c t1 h1 w1) =
        emailAlertSent (checkCO2Alert e2 now c t2 h2 w2) \<and>
      lastEmailSent (checkCO2Alert e1 now c t1 h1 w1) =
        lastEmailSent (checkCO2Alert e2 now c t2 h2 w2) \<and>
      fires e1 now c t1 h1 w1 = fires e2 now c t2 h2 w2) \<and>
   (fires e now c t h w \<longrightarrow>
      trace (checkCO2Alert e now c t h w) =
        trace (sendEmailAlert e c t h (emit (Millis now) w)) @
        [LcdSetRGB 255 0 0, Delay 1000, LcdSetRGB 255 255 255]) \<and>
   (\<not> fires e now c t h w \<longrightarrow>
      trace (checkCO2Alert e now c t h w) =
        trace w @ (if float_ge c 1000 then [Millis now] else []))"
  by (auto simp add: trace_checkCO2Alert armed_checkCO2Alert last_checkCO2Alert fires_iff)

theorem checkCO2Alert_state_pure_io_inside_witness:
  "emailAlertSent bootWorld = emailAlertSent (emit LcdClear bootWorld) \<and>
   lastEmailSent bootWorld = lastEmailSent (emit LcdClear bootWorld) \<and>
   fires env_down 0 (Finite 1200) (Finite 22) (Finite 40) bootWorld \<and>
   fires (env_up (Finite 1200, NaN, NaN)) 0 (Finite 1200) NaN NaN (emit LcdClear bootWorld) \<and>
   trace (checkCO2Alert env_down 0 (Finite 1200) (Finite 22) (Finite 40) bootWorld) =
     [Millis 0, CallSendEmailAlert (Finite 1200) (Finite 22) (Finite 40), WiFiStatus False,
      SerialPrintln ''WiFi not connected, cannot send email'',
      LcdSetRGB 255 0 0, Delay 1000, LcdSetRGB 255 255 255] \<and>
   \<not> fires env_down 5000 (Finite 1200) (Finite 22) (Finite 40) (armedWorld 0) \<and>
   float_ge (Finite 1200) 1000 \<and>
   trace (checkCO2Alert env_down 5000 (Finite 1200) (Finite 22) (Finite 40) (armedWorld 0)) =
     [Millis 5000] \<and>
   \<not> fires env_down 0 (Finite 950) (Finite 22) (Finite 40) bootWorld \<and>
   \<not> float_ge (Finite 950) 1000 \<and>
   trace (checkCO2Alert env_down 0 (Finite 950) (Finite 22) (Finite 40) bootWorld) = []"
  using checkCO2Alert_state_pure_io_inside [of bootWorld "emit LcdClear bootWorld" env_down 0
      "Finite 1200" "Finite 22" "Finite 40" "env_up (Finite 1200, NaN, NaN)" NaN NaN
      env_down "Finite 22" "Finite 40" bootWorld]
    checkCO2Alert_state_pure_io_inside [of "armedWorld 0" "armedWorld 0" env_down 5000
      "Finite 1200" "Finite 22" "Finite 40" env_down "Finite 22" "Finite 40"
      env_down "Finite 22" "Finite 40" "armedWorld 0"]
    checkCO2Alert_state_pure_io_inside [of bootWorld bootWorld env_down 0
      "Finite 950" "Finite 22" "Finite 40" env_down "Finite 22" "Finite 40"
      env_down "Finite 22" "Finite 40" bootWorld]
  by (simp add: fires_iff bootWorld_def armedWorld_def millis_def sendEmailAlert_def
        env_down_def Let_def)

text \<open>C6 as stated fails: with every service answering, one evaluation of a reading
  of 1200 ppm from the initial state reads the clock, enters \<open>sendEmailAlert\<close> and makes
  fifteen more library calls, among them the SMTP dispatch and the display flash.\<close>

theorem checkCO2Alert_performs_io:
  "newEvents bootWorld
     (checkCO2Alert (env_up (Finite 1200, Finite 22, Finite 40)) 0
        (Finite 1200) (Finite 22) (Finite 40) bootWorld) =
   [Millis 0, CallSendEmailAlert (Finite 1200) (Finite 22) (Finite 40), WiFiStatus True,
    SerialPrintln ''Preparing to send email alert...'', LcdClear, LcdSetCursor 0 0,
    LcdPrint ''Sending Alert...'', SmtpConnect True,
    SendMail emailSubject
      (emailBody (env_up (Finite 1200, Finite 22, Finite 40)) (Finite 1200) (Finite 22) (Finite 40))
      True,
    SerialPrintln ''Email sent successfully'', LcdClear, LcdPrint ''Alert Sent!'', Delay 2000,
    LcdClear, LcdSetRGB 255 0 0, Delay 1000, LcdSetRGB 255 255 255]"
  by (simp add: bootWorld_def newEvents_def trace_checkCO2Alert fires_iff sendEmailAlert_def
        env_up_def Let_def)

subsection \<open>Bounded retry\<close>

lemma failedReads_Suc: "failedReads (Suc k) = ScdRead None # Delay 500 # failedReads k"
  by (simp add: failedReads_def)

lemma failedPublishes_Suc:
  "failedPublishes tp p (Suc k) =
     ClientPublish tp p True False # Delay 1000 # failedPublishes tp p k"
  by (simp add: failedPublishes_def)

lemma length_failedReads: "length (failedReads k) = 2 * k"
  by (induction k) (simp_all add: failedReads_Suc, simp add: failedReads_def)

lemma length_failedPublishes: "length (failedPublishes tp p k) = 2 * k"
  by (induction k) (simp_all add: failedPublishes_Suc, simp add: failedPublishes_def)

lemma reads_failedReads: "length (filter isScdRead (failedReads k)) = k"
  by (induction k) (simp_all add: failedReads_Suc, simp add: failedReads_def)

lemma publishes_failedPublishes:
  "filter isPublish (failedPublishes tp p k) = replicate k (ClientPublish tp p True False)"
  by (induction k) (simp_all add: failedPublishes_Suc, simp add: failedPublishes_def)

lemma quiet_failedReads: "ev \<in> set (failedReads k) \<Longrightarrow> quiet ev"
  by (induction k) (auto simp add: failedReads_Suc failedReads_def quiet_def)

lemma plain_failedPublishes:
  "ev \<in> set (failedPublishes tp p k) \<Longrightarrow> \<not> isBuzzer ev \<and> \<not> isEmailCall ev"
  by (induction k) (auto simp add: failedPublishes_Suc failedPublishes_def)

lemma readSensorLoop_trace:
  "readSensorLoop e i n w = (res, w') \<Longrightarrow>
   \<exists>k. (res = None \<and> int k = max 0 (n - i) \<and> trace w' = trace w @ failedReads k) \<or>
       (\<exists>r. res = Some r \<and> int k < n - i \<and>
          trace w' = trace w @ failedReads k @ [ScdRead (Some r)])"
proof (induction e i n w arbitrary: res w' rule: readSensorLoop.induct)
  case (1 e i n w)
  show ?case
  proof (cases "i < n")
    case False
    with "1.prems" show ?thesis
      by (subst (asm) readSensorLoop.simps) (auto simp add: failedReads_def)
  next
    case True
    show ?thesis
    proof (cases "scdRead e (trace w)")
      case (Some r)
      then have b: "blockingReadMeasurementData e w = (Some r, emit (ScdRead (Some r)) w)"
        by (simp add: blockingReadMeasurementData_def Let_def)
      have "readSensorLoop e i n w = (Some r, emit (ScdRead (Some r)) w)"
        using True b by (subst readSensorLoop.simps) simp
      with "1.prems" have "res = Some r" and "w' = emit (ScdRead (Some r)) w"
        by auto
      then have "res = Some r" and "trace w' = trace w @ failedReads 0 @ [ScdRead (Some r)]"
        by (simp_all add: failedReads_def)
      with True show ?thesis by (intro exI [of _ 0] disjI2 exI [of _ r]) simp
    next
      case None
      let ?w1 = "emit (ScdRead None) w"
      from None have b: "blockingReadMeasurementData e w = (None, ?w1)"
        by (simp add: blockingReadMeasurementData_def Let_def)
      have unf: "readSensorLoop e i n w = readSensorLoop e (i + 1) n (emit (Delay 500) ?w1)"
        using True b by (subst readSensorLoop.simps) simp
      with "1.prems" have "readSensorLoop e (i + 1) n (emit (Delay 500) ?w1) = (res, w')"
        by simp
      from "1.IH" [OF True b [symmetric] refl this]
      obtain k where "(res = None \<and> int k = max 0 (n - (i + 1)) \<and>
            trace w' = trace (emit (Delay 500) ?w1) @ failedReads k) \<or>
          (\<exists>r. res = Some r \<and> int k < n - (i + 1) \<and>
            trace w' = trace (emit (Delay 500) ?w1) @ failedReads k @ [ScdRead (Some r)])"
        by auto
      with True show ?thesis
        by (intro exI [of _ "Suc k"]) (auto simp add: failedReads_Suc)
    qed
  qed
qed

lemma readSensorLoop_state:
  "unchanged w (snd (readSensorLoop e i n w))"
proof (induction e i n w rule: readSensorLoop.induct)
  case (1 e i n w)
  show ?case
  proof (cases "i < n")
    case False
    then show ?thesis by (subst readSensorLoop.simps) (simp add: unchanged_def)
  next
    case True
    show ?thesis
    proof (cases "scdRead e (trace w)")
      case (Some r)
      with True show ?thesis
        by (subst readSensorLoop.simps)
           (simp add: blockingReadMeasurementData_def Let_def unchanged_def)
    next
      case None
      let ?w1 = "emit (ScdRead None) w"
      from None have b: "blockingReadMeasurementData e w = (None, ?w1)"
        by (simp add: blockingReadMeasurementData_def Let_def)
      have unf: "readSensorLoop e i n w = readSensorLoop e (i + 1) n (emit (Delay 500) ?w1)"
        using True b by (subst readSensorLoop.simps) simp
      from "1.IH" [OF True b [symmetric] refl] show ?thesis
        unfolding unf by (simp add: unchanged_def)
    qed
  qed
qed

lemma publishLoop_trace:
  "publishLoop e tp p i n w = (ok, w') \<Longrightarrow>
   \<exists>k. (\<not> ok \<and> int k = max 0 (n - i) \<and> trace w' = trace w @ failedPublishes tp p k) \<or>
       (ok \<and> int k < n - i \<and>
          trace w' = trace w @ failedPublishes tp p k @ [ClientPublish tp p True True])"
proof (induction e tp p i n w arbitrary: ok w' rule: publishLoop.induct)
  case (1 e tp p i n w)
  show ?case
  proof (cases "i < n")
    case False
    with "1.prems" show ?thesis
      by (subst (asm) publishLoop.simps) (auto simp add: failedPublishes_def)
  next
    case True
    show ?thesis
    proof (cases "clientPublish e (trace w) tp p")
      case True
      with \<open>i < n\<close> "1.prems" show ?thesis
        by (subst (asm) publishLoop.simps)
           (auto simp add: publish_def Let_def failedPublishes_def intro!: exI [of _ 0])
    next
      case False
      let ?w1 = "emit (ClientPublish tp p True False) w"
      from False have b: "publish e tp p True w = (False, ?w1)"
        by (simp add: publish_def Let_def)
      have unf: "publishLoop e tp p i n w =
          publishLoop e tp p (i + 1) n (emit (Delay 1000) ?w1)"
        using True b by (subst publishLoop.simps) simp
      with "1.prems" have "publishLoop e tp p (i + 1) n (emit (Delay 1000) ?w1) = (ok, w')"
        by simp
      from "1.IH" [OF True b [symmetric] _ this]
      obtain k where "(\<not> ok \<and> int k = max 0 (n - (i + 1)) \<and>
            trace w' = trace (emit (Delay 1000) ?w1) @ failedPublishes tp p k) \<or>
          (ok \<and> int k < n - (i + 1) \<and>
            trace w' = trace (emit (Delay 1000) ?w1) @ failedPublishes tp p k @
               [ClientPublish tp p True True])"
        by auto
      with True show ?thesis
        by (intro exI [of _ "Suc k"]) (auto simp add: failedPublishes_Suc)
    qed
  qed
qed

lemma publishLoop_state:
  "unchanged w (snd (publishLoop e tp p i n w))"
proof (induction e tp p i n w rule: publishLoop.induct)
  case (1 e tp p i n w)
  show ?case
  proof (cases "i < n")
    case False
    then show ?thesis by (subst publishLoop.simps) (simp add: unchanged_def)
  next
    case True
    show ?thesis
    proof (cases "clientPublish e (trace w) tp p")
      case True
      with \<open>i < n\<close> show ?thesis
        by (subst publishLoop.simps) (simp add: publish_def Let_def unchanged_def)
    next
      case False
      let ?w1 = "emit (ClientPublish tp p True False) w"
      from False have b: "publish e tp p True w = (False, ?w1)"
        by (simp add: publish_def Let_def)
      have unf: "publishLoop e tp p i n w =
          publishLoop e tp p (i + 1) n (emit (Delay 1000) ?w1)"
        using True b by (subst publishLoop.simps) simp
      from "1.IH" [OF True b [symmetric]] show ?thesis
        unfolding unf by (simp add: unchanged_def)
    qed
  qed
qed

lemma readSensorWithRetry_bound:
  assumes "1 \<le> n" and "readSensorWithRetry e n w = (res, w')"
  shows "int (length (filter isScdRead (newEvents w w'))) \<le> n \<and>
         (\<forall>r. res = Some r \<longrightarrow>
            (\<exists>k. int k < n \<and> newEvents w w' = failedReads k @ [ScdRead (Some r)])) \<and>
         (res = None \<longleftrightarrow> newEvents w w' = failedReads (nat n))"
proof -
  from assms(2) have "readSensorLoop e 0 n w = (res, w')"
    by (simp add: readSensorWithRetry_def)
  from readSensorLoop_trace [OF this]
  obtain k where k: "(res = None \<and> int k = max 0 (n - 0) \<and> trace w' = trace w @ failedReads k) \<or>
       (\<exists>r. res = Some r \<and> int k < n - 0 \<and>
          trace w' = trace w @ failedReads k @ [ScdRead (Some r)])"
    by blast
  show ?thesis
  proof (cases res)
    case None
    with k assms(1) have "k = nat n" and "newEvents w w' = failedReads k"
      by (auto simp add: newEvents_append)
    with None assms(1) show ?thesis by (simp add: reads_failedReads)
  next
    case (Some r)
    with k have kn: "int k < n" and ev: "newEvents w w' = failedReads k @ [ScdRead (Some r)]"
      by (auto simp add: newEvents_append)
    have "length (newEvents w w') \<noteq> length (failedReads (nat n))"
      unfolding ev by (simp add: length_failedReads) presburger
    then have "newEvents w w' \<noteq> failedReads (nat n)" by auto
    with Some kn ev show ?thesis by (auto simp add: reads_failedReads)
  qed
qed

lemma publishWithRetry_bound:
  assumes "1 \<le> n" and "publishWithRetry e tp p n w = (ok, w')"
  shows "int (length (filter isPublish (newEvents w w'))) \<le> n \<and>
         (ok \<longrightarrow>
            (\<exists>k. int k < n \<and>
               newEvents w w' = failedPublishes tp p k @ [ClientPublish tp p True True])) \<and>
         (\<not> ok \<longleftrightarrow> newEvents w w' = failedPublishes tp p (nat n))"
proof -
  from assms(2) have "publishLoop e tp p 0 n w = (ok, w')"
    by (simp add: publishWithRetry_def)
  from publishLoop_trace [OF this]
  obtain k where k: "(\<not> ok \<and> int k = max 0 (n - 0) \<and>
          trace w' = trace w @ failedPublishes tp p k) \<or>
       (ok \<and> int k < n - 0 \<and>
          trace w' = trace w @ failedPublishes tp p k @ [ClientPublish tp p True True])"
    by blast
  show ?thesis
  proof (cases ok)
    case False
    with k assms(1) have "k = nat n" and "newEvents w w' = failedPublishes tp p k"
      by (auto simp add: newEvents_append)
    with False assms(1) show ?thesis by (simp add: publishes_failedPublishes)
  next
    case True
    with k have kn: "int k < n"
      and ev: "newEvents w w' = failedPublishes tp p k @ [ClientPublish tp p True True]"
      by (auto simp add: newEvents_append)
    have "length (newEvents w w') \<noteq> length (failedPublishes tp p (nat n))"
      unfolding ev by (simp add: length_failedPublishes) presburger
    then have "newEvents w w' \<noteq> failedPublishes tp p (nat n)" by auto
    with True kn ev show ?thesis by (auto simp add: publishes_failedPublishes)
  qed
qed

text \<open>C3 (retry bound): for \<open>maxRetries = n >= 1\<close>, \<open>readSensorWithRetry\<close> reads the sensor
  at most \<open>n\<close> times; when it returns a reading, that reading is the answer of its last
  call and all calls before it failed; it returns failure exactly when its calls are \<open>n\<close>
  failed reads (each followed by the delay of 500 ms). The same holds for
  \<open>publishWithRetry\<close> with the delay of 1000 ms.\<close>

theorem retry_bound:
  assumes "1 \<le> n"
  shows "(case readSensorWithRetry e n w of
            (res, w') \<Rightarrow>
              int (length (filter isScdRead (newEvents w w'))) \<le> n \<and>
              (\<forall>r. res = Some r \<longrightarrow>
                 (\<exists>k. int k < n \<and> newEvents w w' = failedReads k @ [ScdRead (Some r)])) \<and>
              (res = None \<longleftrightarrow> newEvents w w' = failedReads (nat n))) \<and>
         (case publishWithRetry e tp p n w of
            (ok, w') \<Rightarrow>
              int (length (filter isPublish (newEvents w w'))) \<le> n \<and>
              (ok \<longrightarrow>
                 (\<exists>k. int k < n \<and>
                    newEvents w w' = failedPublishes tp p k @ [ClientPublish tp p True True])) \<and>
              (\<not> ok \<longleftrightarrow> newEvents w w' = failedPublishes tp p (nat n)))"
proof -
  obtain res w1 where r: "readSensorWithRetry e n w = (res, w1)"
    by (cases "readSensorWithRetry e n w")
  obtain ok w2 where p: "publishWithRetry e tp p n w = (ok, w2)"
    by (cases "publishWithRetry e tp p n w")
  from readSensorWithRetry_bound [OF assms r] publishWithRetry_bound [OF assms p] r p
  show ?thesis by simp
qed

theorem retry_bound_witness:
  "(1 :: int) \<le> 3 \<and>
   fst (readSensorWithRetry env_down 3 bootWorld) = None \<and>
   newEvents bootWorld (snd (readSensorWithRetry env_down 3 bootWorld)) =
     [ScdRead None, Delay 500, ScdRead None, Delay 500, ScdRead None, Delay 500] \<and>
   \<not> fst (publishWithRetry env_down topic ''x=1'' 3 bootWorld) \<and>
   newEvents bootWorld (snd (publishWithRetry env_down topic ''x=1'' 3 bootWorld)) =
     failedPublishes topic ''x=1'' 3 \<and>
   fst (readSensorWithRetry (env_up (Finite 415, Finite 22, Finite 40)) 3 bootWorld) =
     Some (Finite 415, Finite 22, Finite 40) \<and>
   newEvents bootWorld (snd (readSensorWithRetry (env_up (Finite 415, Finite 22, Finite 40)) 3 bootWorld)) =
     [ScdRead (Some (Finite 415, Finite 22, Finite 40))]"
  using retry_bound [where n = 3 and e = env_down and w = bootWorld and tp = topic
      and p = "''x=1''"]
    retry_bound [where n = 3 and e = "env_up (Finite 415, Finite 22, Finite 40)"
      and w = bootWorld and tp = topic and p = "''x=1''"]
  by (simp add: readSensorWithRetry_def publishWithRetry_def readSensorLoop.simps
        publishLoop.simps blockingReadMeasurementData_def publish_def Let_def env_down_def
        env_up_def bootWorld_def newEvents_def failedPublishes_def)

subsection \<open>The parts of the main loop\<close>

lemma reconnectMQTT_frame:
  assumes "reconnectMQTT e w = Some w'"
  shows "unchanged w w' \<and> (\<exists>evs. trace w' = trace w @ evs \<and> (\<forall>ev\<in>set evs. quiet ev))"
  using assms
proof (induction rule: reconnectMQTT.raw_induct [rotated 1, consumes 1, case_names step])
  case (step f e w w')
  show ?case
  proof (cases "clientConnected e (trace w)")
    case True
    with step.hyps have "w' = emit (ClientConnected True) w"
      by (simp add: Let_def)
    then show ?thesis by (simp add: unchanged_def quiet_def)
  next
    case False
    let ?w1 = "emit (ClientConnected False) w"
    let ?w2 = "emits [LcdClear, LcdSetCursor 0 0, LcdPrint ''Connecting MQTT''] ?w1"
    let ?ok = "clientConnect e (trace ?w2)"
    let ?w3 = "emit (ClientConnect ?ok) ?w2"
    let ?w4 = "if ?ok
               then emits [SerialPrintln ''connected!'', LcdSetCursor 0 1,
                           LcdPrint ''MQTT Connected'', Delay 1000, LcdClear] ?w3
               else emits [LcdSetCursor 0 1, LcdPrint ''MQTT Failed'', Delay 5000] ?w3"
    from False step.hyps have "f e ?w4 = Some w'"
      by (simp add: Let_def split: if_splits del: emits.simps)
    from step.IH [OF this]
    obtain evs where u: "unchanged ?w4 w'" and tr: "trace w' = trace ?w4 @ evs"
      and q: "\<forall>ev\<in>set evs. quiet ev" by blast
    from u have "unchanged w w'" by (simp add: unchanged_def del: emits.simps)
    moreover have "\<exists>pre. trace ?w4 = trace w @ pre \<and> (\<forall>ev\<in>set pre. quiet ev)"
      by (simp add: quiet_def del: emits.simps)
    then obtain pre where "trace ?w4 = trace w @ pre" and "\<forall>ev\<in>set pre. quiet ev" by blast
    with tr q have "trace w' = trace w @ (pre @ evs) \<and> (\<forall>ev\<in>set (pre @ evs). quiet ev)"
      by auto
    ultimately show ?thesis by blast
  qed
qed

lemma loopConnect_frame:
  assumes "loopConnect e w = Some w'"
  shows "unchanged w w' \<and> (\<exists>evs. trace w' = trace w @ evs \<and> (\<forall>ev\<in>set evs. quiet ev))"
proof (cases "clientConnected e (trace w)")
  case True
  with assms have "w' = emit ClientLoop (emit (ClientConnected True) w)"
    by (simp add: loopConnect_def Let_def)
  then show ?thesis by (simp add: unchanged_def quiet_def)
next
  case False
  let ?w1 = "emit (ClientConnected False) w"
  from False assms obtain w2 where r: "reconnectMQTT e ?w1 = Some w2"
    and w': "w' = emit ClientLoop w2"
    by (auto simp add: loopConnect_def Let_def split: option.splits)
  from reconnectMQTT_frame [OF r]
  obtain evs where u: "unchanged ?w1 w2" and tr: "trace w2 = trace ?w1 @ evs"
    and q: "\<forall>ev\<in>set evs. quiet ev" by blast
  from u w' have "unchanged w w'" by (simp add: unchanged_def)
  moreover from tr w' q
  have "trace w' = trace w @ (ClientConnected False # evs @ [ClientLoop]) \<and>
      (\<forall>ev\<in>set (ClientConnected False # evs @ [ClientLoop]). quiet ev)"
    by (auto simp add: quiet_def)
  ultimately show ?thesis by blast
qed

text \<open>With the client connected, the connection phase is two calls and ends.\<close>

lemma loopConnect_connected:
  "clientConnected e (trace w) \<Longrightarrow>
   loopConnect e w = Some (emits [ClientConnected True, ClientLoop] w)"
  by (simp add: loopConnect_def Let_def)

lemma loop_connected_returns:
  "clientConnected e (trace w) \<Longrightarrow> \<exists>c. loop e now w = Some c"
  by (simp add: loop_def loopConnect_connected del: emits.simps)

lemma readSensorWithRetry_frame:
  assumes "readSensorWithRetry e n w = (res, w')"
  shows "unchanged w w' \<and> (\<exists>evs. trace w' = trace w @ evs \<and> (\<forall>ev\<in>set evs. quiet ev))"
proof -
  from assms have r: "readSensorLoop e 0 n w = (res, w')"
    by (simp add: readSensorWithRetry_def)
  from readSensorLoop_state [of w e 0 n] r have "unchanged w w'"
    by simp
  moreover from readSensorLoop_trace [OF r]
  have "\<exists>evs. trace w' = trace w @ evs \<and> (\<forall>ev\<in>set evs. quiet ev)"
    by (auto simp add: quiet_failedReads) (auto simp add: quiet_def)
  ultimately show ?thesis by blast
qed

lemma sendEmailAlert_events:
  "\<exists>evs. trace (sendEmailAlert e c t h w) = trace w @ evs \<and>
         (\<forall>ev\<in>set evs. \<not> isPublish ev \<and> \<not> isBuzzer ev)"
  by (simp add: sendEmailAlert_def Let_def del: emits.simps)

lemma checkCO2Alert_events:
  "\<exists>evs. trace (checkCO2Alert e now c t h w) = trace w @ evs \<and>
         (\<forall>ev\<in>set evs. \<not> isPublish ev \<and> \<not> isBuzzer ev)"
proof (cases "fires e now c t h w")
  case True
  from sendEmailAlert_events [of e c t h "emit (Millis now) w"]
  obtain evs where "trace (sendEmailAlert e c t h (emit (Millis now) w)) =
      trace w @ Millis now # evs"
    and "\<forall>ev\<in>set evs. \<not> isPublish ev \<and> \<not> isBuzzer ev" by auto
  with True have "trace (checkCO2Alert e now c t h w) =
      trace w @ (Millis now # evs @ [LcdSetRGB 255 0 0, Delay 1000, LcdSetRGB 255 255 255]) \<and>
      (\<forall>ev\<in>set (Millis now # evs @ [LcdSetRGB 255 0 0, Delay 1000, LcdSetRGB 255 255 255]).
          \<not> isPublish ev \<and> \<not> isBuzzer ev)"
    by (auto simp add: trace_checkCO2Alert)
  then show ?thesis by blast
next
  case False
  then show ?thesis by (simp add: trace_checkCO2Alert)
qed

text \<open>C5 (a failed acquisition aborts the cycle): when the connection phase ends and all
  three sensor reads fail, the pass through \<open>loop()\<close> ends at the early return; after the
  connection phase its calls are the three failed reads and the error message with its
  pause of 2000 ms, nothing else; the alert state is the one the pass started with; and the
  pass neither enters \<open>sendEmailAlert\<close> nor publishes.\<close>

theorem acquisition_failure_aborts:
  assumes "loopConnect e w = Some w3" and "readSensorWithRetry e 3 w3 = (None, w4)"
  shows "loop e now w =
           Some (SensorError (emits [LcdClear, LcdPrint ''Sensor Error!'', Delay 2000] w4)) \<and>
         newEvents w3 (emits [LcdClear, LcdPrint ''Sensor Error!'', Delay 2000] w4) =
           failedReads 3 @ [LcdClear, LcdPrint ''Sensor Error!'', Delay 2000] \<and>
         emailAlertSent w4 = emailAlertSent w \<and> lastEmailSent w4 = lastEmailSent w \<and>
         filter isEmailCall (cycleEvents w (loop e now w)) = [] \<and>
         filter isPublish (cycleEvents w (loop e now w)) = []"
proof -
  let ?w' = "emits [LcdClear, LcdPrint ''Sensor Error!'', Delay 2000] w4"
  have l: "loop e now w = Some (SensorError ?w')"
    using assms by (simp add: loop_def del: emits.simps)
  from loopConnect_frame [OF assms(1)]
  obtain evs where u3: "unchanged w w3" and t3: "trace w3 = trace w @ evs"
    and q3: "\<forall>ev\<in>set evs. quiet ev" by blast
  from readSensorWithRetry_frame [OF assms(2)] have u4: "unchanged w3 w4" by blast
  have "(1 :: int) \<le> 3" by simp
  from readSensorWithRetry_bound [OF this assms(2)]
  have "newEvents w3 w4 = failedReads (nat 3)" by simp
  then have t4: "trace w4 = trace w3 @ failedReads 3"
    using readSensorWithRetry_frame [OF assms(2)] by (auto simp add: newEvents_def)
  have a: "newEvents w3 ?w' = failedReads 3 @ [LcdClear, LcdPrint ''Sensor Error!'', Delay 2000]"
    using t4 by (simp add: newEvents_def)
  have ce: "cycleEvents w (loop e now w) =
      evs @ failedReads 3 @ [LcdClear, LcdPrint ''Sensor Error!'', Delay 2000]"
    using l t3 t4 by (simp add: cycleEvents_def newEvents_def)
  have "\<forall>ev\<in>set (failedReads 3). quiet ev" by (simp add: quiet_failedReads)
  with q3 have "\<forall>ev\<in>set (cycleEvents w (loop e now w)). \<not> isEmailCall ev \<and> \<not> isPublish ev"
    unfolding ce by (auto simp add: quiet_def)
  then have "filter isEmailCall (cycleEvents w (loop e now w)) = []"
    and "filter isPublish (cycleEvents w (loop e now w)) = []"
    by (simp_all add: filter_empty_conv)
  with l a u3 u4 show ?thesis by (simp add: unchanged_def)
qed

theorem acquisition_failure_aborts_witness:
  "loopConnect env_down bootWorld =
     Some (emits [ClientConnected True, ClientLoop] bootWorld) \<and>
   fst (readSensorWithRetry env_down 3 (emits [ClientConnected True, ClientLoop] bootWorld)) = None \<and>
   cycleEvents bootWorld (loop env_down 0 bootWorld) =
     [ClientConnected True, ClientLoop, ScdRead None, Delay 500, ScdRead None, Delay 500,
      ScdRead None, Delay 500, LcdClear, LcdPrint ''Sensor Error!'', Delay 2000] \<and>
   filter isPublish (cycleEvents bootWorld (loop env_down 0 bootWorld)) = []"
  using acquisition_failure_aborts [where e = env_down and w = bootWorld and now = 0
      and ?w3.0 = "emits [ClientConnected True, ClientLoop] bootWorld"
      and ?w4.0 = "snd (readSensorWithRetry env_down 3
                          (emits [ClientConnected True, ClientLoop] bootWorld))"]
  by (simp add: loop_def loopConnect_def readSensorWithRetry_def readSensorLoop.simps
        blockingReadMeasurementData_def Let_def env_down_def bootWorld_def cycleEvents_def
        newEvents_def emit_def failedReads_def numeral_3_eq_3)

lemma truncate_rat_threshold: "(1000 < truncate_rat q) = (1001 \<le> q)"
proof (cases "0 \<le> q")
  case True
  then have "truncate_rat q = \<lfloor>q\<rfloor>" by (simp add: truncate_rat_def)
  moreover have "(1000 < \<lfloor>q\<rfloor>) = (1001 \<le> \<lfloor>q\<rfloor>)" by auto
  moreover have "(1001 \<le> \<lfloor>q\<rfloor>) = (1001 \<le> q)"
    using le_floor_iff [of 1001 q] by simp
  ultimately show ?thesis by simp
next
  case False
  then have "truncate_rat q = \<lceil>q\<rceil>" and "\<lceil>q\<rceil> \<le> 0"
    by (simp_all add: truncate_rat_def ceiling_le_iff)
  with False show ?thesis by simp
qed

lemma float_to_int_threshold:
  "float_to_int (Finite q) = Some ic \<Longrightarrow> (1000 < ic) = (1001 \<le> q)"
  by (auto simp add: Let_def truncate_rat_threshold split: if_splits)

lemma float_to_int_Finite: "float_to_int c = Some ic \<Longrightarrow> \<exists>q. c = Finite q"
  by (cases c) simp_all

lemma loopDisplay_Completed:
  assumes "loopDisplay c t h w = Completed w'"
  shows "\<exists>q evs. c = Finite q \<and> (\<forall>ev\<in>set evs. \<not> isBuzzer ev \<and> \<not> isPublish ev) \<and>
           trace w' = trace w @ evs @
             (if 1001 \<le> q then [DigitalWrite buzzer True, Delay 1000] else []) @
             [DigitalWrite buzzer False, Delay 1000]"
proof -
  from assms obtain ic it ih where ic: "float_to_int c = Some ic"
    and it: "float_to_int t = Some it" and ih: "float_to_int h = Some ih"
    by (auto simp add: loopDisplay_def Let_def split: option.splits simp del: emits.simps)
  from float_to_int_Finite [OF ic] obtain q where q: "c = Finite q" by blast
  with ic have thr: "(1000 < ic) = (1001 \<le> q)" by (simp only: float_to_int_threshold)
  let ?evs = "[LcdSetCursor 0 0, LcdPrint ''CO2: '', LcdPrintInt ic, LcdPrint '' ppm'',
               LcdSetCursor 0 1, LcdPrint ''T: '', LcdPrintInt it, LcdWrite 0xDF,
               LcdPrint ''C'', LcdSetCursor 8 1, LcdPrint ''H: '', LcdPrintInt ih,
               LcdWrite 0x25]"
  from assms ic it ih thr have "trace w' = trace w @ ?evs @
      (if 1001 \<le> q then [DigitalWrite buzzer True, Delay 1000] else []) @
      [DigitalWrite buzzer False, Delay 1000]"
    by (auto simp add: loopDisplay_def Let_def simp del: emits.simps float_to_int.simps)
  moreover have "\<forall>ev\<in>set ?evs. \<not> isBuzzer ev \<and> \<not> isPublish ev" by simp
  ultimately show ?thesis using q by blast
qed

lemma loopDisplay_events:
  "\<exists>evs. trace (cycleWorld (loopDisplay c t h w)) = trace w @ evs \<and>
         (\<forall>ev\<in>set evs. \<not> isPublish ev)"
  by (simp add: loopDisplay_def Let_def split: option.splits del: emits.simps float_to_int.simps)

lemma publishWithRetry_events:
  assumes "publishWithRetry e tp p 3 w = (ok, w')"
  shows "\<exists>evs. trace w' = trace w @ evs \<and> (\<forall>ev\<in>set evs. \<not> isBuzzer ev) \<and>
           filter isPublish evs \<noteq> [] \<and>
           (\<forall>ev\<in>set (filter isPublish evs). \<exists>r. ev = ClientPublish tp p True r)"
proof -
  from assms have "publishLoop e tp p 0 3 w = (ok, w')"
    by (simp add: publishWithRetry_def)
  from publishLoop_trace [OF this]
  obtain k where k: "(\<not> ok \<and> int k = max 0 (3 - 0) \<and>
          trace w' = trace w @ failedPublishes tp p k) \<or>
       (ok \<and> int k < 3 - 0 \<and>
          trace w' = trace w @ failedPublishes tp p k @ [ClientPublish tp p True True])"
    by blast
  show ?thesis
  proof (cases ok)
    case False
    with k have k3: "k = 3" and tr: "trace w' = trace w @ failedPublishes tp p k" by auto
    have "\<forall>ev\<in>set (failedPublishes tp p k). \<not> isBuzzer ev"
      by (simp add: plain_failedPublishes)
    moreover have "filter isPublish (failedPublishes tp p k) \<noteq> []"
      using k3 by (simp add: publishes_failedPublishes)
    moreover have "\<forall>ev\<in>set (filter isPublish (failedPublishes tp p k)).
        \<exists>r. ev = ClientPublish tp p True r"
      by (auto simp add: publishes_failedPublishes)
    ultimately show ?thesis using tr by blast
  next
    case True
    let ?evs = "failedPublishes tp p k @ [ClientPublish tp p True True]"
    from True k have tr: "trace w' = trace w @ ?evs" by auto
    have "\<forall>ev\<in>set ?evs. \<not> isBuzzer ev"
      by (auto simp add: plain_failedPublishes)
    moreover have "filter isPublish ?evs \<noteq> []" by simp
    moreover have "\<forall>ev\<in>set (filter isPublish ?evs). \<exists>r. ev = ClientPublish tp p True r"
      by (auto simp add: publishes_failedPublishes)
    ultimately show ?thesis using tr by blast
  qed
qed

lemma specPayload_eq:
  "specPayload a b c m =
     ''field1='' @ a @ ''&field2='' @ b @ ''&field3='' @ c @ ''&status='' @ m"
  by (simp add: specPayload_def)

text \<open>A pass whose acquisition succeeds reaches the display part; before it, the calls
  are some that neither publish nor touch the buzzer, then those of the publish phase.\<close>

lemma loop_acquired:
  assumes "loopConnect e w = Some w3"
    and "readSensorWithRetry e 3 w3 = (Some (c, t, h), w4)"
  shows "\<exists>w8 pre pubs.
           loop e now w = Some (loopDisplay c t h w8) \<and>
           trace w8 = trace w @ pre @ pubs \<and>
           (\<forall>ev\<in>set pre. \<not> isPublish ev \<and> \<not> isBuzzer ev) \<and>
           (\<forall>ev\<in>set pubs. \<not> isBuzzer ev) \<and>
           filter isPublish pubs \<noteq> [] \<and>
           (\<forall>ev\<in>set (filter isPublish pubs). \<exists>r. ev =
              ClientPublish topic
                (specPayload (floatStr e c 2) (floatStr e t 2) (floatStr e h 2) ''MQTTPUBLISH'')
                True r)"
proof -
  define P where "P = specPayload (floatStr e c 2) (floatStr e t 2) (floatStr e h 2) ''MQTTPUBLISH''"
  define w5 where "w5 = checkCO2Alert e now c t h w4"
  define w6 where "w6 = emits [SerialPrintln ''Publishing payload:'', SerialPrintln P,
                               Delay 2000, LcdClear] w5"
  obtain ok w7 where pb: "publishWithRetry e topic P 3 w6 = (ok, w7)"
    by (cases "publishWithRetry e topic P 3 w6")
  define w8 where "w8 = (if \<not> ok
      then emits [LcdPrint ''Publish Failed!'', Delay 2000, LcdClear] w7 else w7)"
  have l: "loop e now w = Some (loopDisplay c t h w8)"
    using assms pb
    by (simp add: loop_def Let_def w8_def w6_def w5_def P_def specPayload_eq del: emits.simps)
  from loopConnect_frame [OF assms(1)]
  obtain e3 where t3: "trace w3 = trace w @ e3" and q3: "\<forall>ev\<in>set e3. quiet ev" by blast
  from readSensorWithRetry_frame [OF assms(2)]
  obtain e4 where t4: "trace w4 = trace w3 @ e4" and q4: "\<forall>ev\<in>set e4. quiet ev" by blast
  from checkCO2Alert_events [of e now c t h w4]
  obtain e5 where t5: "trace w5 = trace w4 @ e5"
    and q5: "\<forall>ev\<in>set e5. \<not> isPublish ev \<and> \<not> isBuzzer ev"
    unfolding w5_def by blast
  let ?pre = "e3 @ e4 @ e5 @ [SerialPrintln ''Publishing payload:'', SerialPrintln P,
                              Delay 2000, LcdClear]"
  have t6: "trace w6 = trace w @ ?pre"
    using t3 t4 t5 by (simp add: w6_def)
  have qpre: "\<forall>ev\<in>set ?pre. \<not> isPublish ev \<and> \<not> isBuzzer ev"
    using q3 q4 q5 by (auto simp add: quiet_def)
  from publishWithRetry_events [OF pb]
  obtain e7 where t7: "trace w7 = trace w6 @ e7" and b7: "\<forall>ev\<in>set e7. \<not> isBuzzer ev"
    and n7: "filter isPublish e7 \<noteq> []"
    and p7: "\<forall>ev\<in>set (filter isPublish e7). \<exists>r. ev = ClientPublish topic P True r"
    by blast
  let ?pubs = "e7 @ (if \<not> ok then [LcdPrint ''Publish Failed!'', Delay 2000, LcdClear] else [])"
  have t8: "trace w8 = trace w @ ?pre @ ?pubs"
    using t6 t7 by (simp add: w8_def)
  have b8: "\<forall>ev\<in>set ?pubs. \<not> isBuzzer ev" using b7 by auto
  have f8: "filter isPublish ?pubs = filter isPublish e7" by simp
  from l t8 qpre b8 n7 p7 show ?thesis
    unfolding f8 [symmetric] P_def by blast
qed

subsection \<open>The buzzer and the payload\<close>

text \<open>C4 (buzzer), as the code has it: the pass compares \<open>int(co2)\<close>, the reading
  truncated towards zero, with 1000. On every completed pass whose acquisition gave the
  reading \<open>co2\<close>, the value is finite and the writes to the buzzer pin are: high, then low,
  when co2 >= 1001; low only, when co2 < 1001. The high write is followed by a pause of
  1000 ms, the low write ends the pass with its own pause. The alert state plays no part.\<close>

theorem buzzer_integer_threshold:
  assumes "loopConnect e w = Some w3"
    and "readSensorWithRetry e 3 w3 = (Some (co2, t, h), w4)"
    and "completed (loop e now w)"
  shows "\<exists>q. co2 = Finite q \<and>
           filter isBuzzer (cycleEvents w (loop e now w)) =
             (if 1001 \<le> q then [DigitalWrite buzzer True, DigitalWrite buzzer False]
              else [DigitalWrite buzzer False]) \<and>
           (\<exists>evs. cycleEvents w (loop e now w) =
              evs @ (if 1001 \<le> q then [DigitalWrite buzzer True, Delay 1000] else []) @
              [DigitalWrite buzzer False, Delay 1000])"
proof -
  from loop_acquired [OF assms(1,2), of now]
  obtain w8 pre pubs where l: "loop e now w = Some (loopDisplay co2 t h w8)"
    and t8: "trace w8 = trace w @ pre @ pubs"
    and qpre: "\<forall>ev\<in>set pre. \<not> isPublish ev \<and> \<not> isBuzzer ev"
    and qpubs: "\<forall>ev\<in>set pubs. \<not> isBuzzer ev"
    by blast
  from assms(3) l obtain w' where c: "loopDisplay co2 t h w8 = Completed w'"
    by (cases "loopDisplay co2 t h w8") simp_all
  from loopDisplay_Completed [OF c]
  obtain q evs where q: "co2 = Finite q"
    and qevs: "\<forall>ev\<in>set evs. \<not> isBuzzer ev \<and> \<not> isPublish ev"
    and t': "trace w' = trace w8 @ evs @
             (if 1001 \<le> q then [DigitalWrite buzzer True, Delay 1000] else []) @
             [DigitalWrite buzzer False, Delay 1000]"
    by blast
  have ce: "cycleEvents w (loop e now w) = (pre @ pubs @ evs) @
      (if 1001 \<le> q then [DigitalWrite buzzer True, Delay 1000] else []) @
      [DigitalWrite buzzer False, Delay 1000]"
    using l c t8 t' by (simp add: cycleEvents_def newEvents_def)
  have "filter isBuzzer (pre @ pubs @ evs) = []"
    using qpre qpubs qevs by (auto simp add: filter_empty_conv)
  then have "filter isBuzzer (cycleEvents w (loop e now w)) =
      (if 1001 \<le> q then [DigitalWrite buzzer True, DigitalWrite buzzer False]
       else [DigitalWrite buzzer False])"
    unfolding ce by simp
  with q ce show ?thesis by blast
qed

theorem buzzer_integer_threshold_witness:
  "loopConnect (env_up (Finite 1001, Finite 22, Finite 40)) bootWorld =
     Some (emits [ClientConnected True, ClientLoop] bootWorld) \<and>
   fst (readSensorWithRetry (env_up (Finite 1001, Finite 22, Finite 40)) 3
          (emits [ClientConnected True, ClientLoop] bootWorld)) =
     Some (Finite 1001, Finite 22, Finite 40) \<and>
   completed (loop (env_up (Finite 1001, Finite 22, Finite 40)) 0 bootWorld) \<and>
   filter isBuzzer (cycleEvents bootWorld
       (loop (env_up (Finite 1001, Finite 22, Finite 40)) 0 bootWorld)) =
     [DigitalWrite buzzer True, DigitalWrite buzzer False]"
  using buzzer_integer_threshold [where e = "env_up (Finite 1001, Finite 22, Finite 40)"
      and w = bootWorld and now = 0 and ?co2.0 = "Finite 1001" and t = "Finite 22"
      and h = "Finite 40"
      and ?w3.0 = "emits [ClientConnected True, ClientLoop] bootWorld"
      and ?w4.0 = "snd (readSensorWithRetry (env_up (Finite 1001, Finite 22, Finite 40)) 3
                          (emits [ClientConnected True, ClientLoop] bootWorld))"]
  by (simp add: loop_def loopConnect_def loopDisplay_def readSensorWithRetry_def
        readSensorLoop.simps publishWithRetry_def publishLoop.simps publish_def
        blockingReadMeasurementData_def Let_def env_up_def bootWorld_def cycleEvents_def
        newEvents_def truncate_rat_def trace_checkCO2Alert
        del: emits.simps)

text \<open>C4 as stated fails at 1000.5 ppm, a value above 1000 that a float holds
  exactly: the pass completes and its only write to the buzzer pin is the low one.\<close>

theorem buzzer_silent_at_1000_5:
  "(1000 :: rat) < 2001 / 2 \<and>
   completed (loop (env_up (Finite (2001 / 2), Finite 22, Finite 40)) 0 bootWorld) \<and>
   filter isBuzzer (cycleEvents bootWorld
       (loop (env_up (Finite (2001 / 2), Finite 22, Finite 40)) 0 bootWorld)) =
     [DigitalWrite buzzer False]"
  by (simp add: loop_def loopConnect_def loopDisplay_def readSensorWithRetry_def
        readSensorLoop.simps publishWithRetry_def publishLoop.simps publish_def
        blockingReadMeasurementData_def Let_def env_up_def bootWorld_def cycleEvents_def
        newEvents_def truncate_rat_def trace_checkCO2Alert fires_iff sendEmailAlert_def
        del: emits.simps)

lemma isAscii_char [simp]: "isAscii (Char b0 b1 b2 b3 b4 b5 b6 False)"
  by (simp add: isAscii_def)

lemma isAscii_specPayload:
  assumes "list_all isAscii a" and "list_all isAscii b" and "list_all isAscii c"
  shows "list_all isAscii (specPayload a b c ''MQTTPUBLISH'')"
  using assms by (simp add: specPayload_eq)

text \<open>C7 (payload format): on a pass whose acquisition gave the reading
  (co2, temperature, humidity), at least one publish is attempted, and every publish of
  the pass goes to the fixed topic, retained, with the payload
  \<open>field1=<co2>&field2=<temperature>&field3=<humidity>&status=MQTTPUBLISH\<close>, the three
  values rendered by \<open>String(value)\<close> with its default of two decimal places. This is the
  format of the specification, key=value pairs joined by \<open>&\<close>; it is ASCII when the three
  rendered values are.\<close>

theorem payload_format:
  assumes "loopConnect e w = Some w3"
    and "readSensorWithRetry e 3 w3 = (Some (co2, t, h), w4)"
  shows "filter isPublish (cycleEvents w (loop e now w)) \<noteq> [] \<and>
         (\<forall>ev\<in>set (filter isPublish (cycleEvents w (loop e now w))).
            \<exists>ok. ev = ClientPublish topic
              (specPayload (floatStr e co2 2) (floatStr e t 2) (floatStr e h 2) ''MQTTPUBLISH'')
              True ok) \<and>
         specPayload (floatStr e co2 2) (floatStr e t 2) (floatStr e h 2) ''MQTTPUBLISH'' =
           ''field1='' @ floatStr e co2 2 @ ''&field2='' @ floatStr e t 2 @
           ''&field3='' @ floatStr e h 2 @ ''&status=MQTTPUBLISH'' \<and>
         (list_all isAscii (floatStr e co2 2) \<and> list_all isAscii (floatStr e t 2) \<and>
          list_all isAscii (floatStr e h 2) \<longrightarrow>
            list_all isAscii
              (specPayload (floatStr e co2 2) (floatStr e t 2) (floatStr e h 2) ''MQTTPUBLISH''))"
proof -
  let ?P = "specPayload (floatStr e co2 2) (floatStr e t 2) (floatStr e h 2) ''MQTTPUBLISH''"
  from loop_acquired [OF assms, of now]
  obtain w8 pre pubs where l: "loop e now w = Some (loopDisplay co2 t h w8)"
    and t8: "trace w8 = trace w @ pre @ pubs"
    and qpre: "\<forall>ev\<in>set pre. \<not> isPublish ev \<and> \<not> isBuzzer ev"
    and npubs: "filter isPublish pubs \<noteq> []"
    and ppubs: "\<forall>ev\<in>set (filter isPublish pubs). \<exists>r. ev = ClientPublish topic ?P True r"
    by blast
  from loopDisplay_events [of co2 t h w8]
  obtain post where tp: "trace (cycleWorld (loopDisplay co2 t h w8)) = trace w8 @ post"
    and qpost: "\<forall>ev\<in>set post. \<not> isPublish ev" by blast
  have ce: "cycleEvents w (loop e now w) = pre @ pubs @ post"
    using l t8 tp by (simp add: cycleEvents_def newEvents_def)
  have "filter isPublish pre = []" and "filter isPublish post = []"
    using qpre qpost by (auto simp add: filter_empty_conv)
  then have f: "filter isPublish (cycleEvents w (loop e now w)) = filter isPublish pubs"
    unfolding ce by simp
  show ?thesis
    unfolding f using npubs ppubs
    by (simp add: isAscii_specPayload) (simp add: specPayload_eq)
qed

theorem payload_format_witness:
  "loopConnect (env_up (Finite 415, Finite 22, Finite 40)) bootWorld =
     Some (emits [ClientConnected True, ClientLoop] bootWorld) \<and>
   readSensorWithRetry (env_up (Finite 415, Finite 22, Finite 40)) 3
       (emits [ClientConnected True, ClientLoop] bootWorld) =
     (Some (Finite 415, Finite 22, Finite 40),
      emits [ClientConnected True, ClientLoop, ScdRead (Some (Finite 415, Finite 22, Finite 40))]
        bootWorld) \<and>
   filter isPublish (cycleEvents bootWorld
       (loop (env_up (Finite 415, Finite 22, Finite 40)) 0 bootWorld)) \<noteq> [] \<and>
   filter isPublish (cycleEvents bootWorld
       (loop (env_up (Finite 415, Finite 22, Finite 40)) 0 bootWorld)) =
     [ClientPublish ''channels/3141928/publish''
        ''field1=#.##&field2=#.##&field3=#.##&status=MQTTPUBLISH'' True True] \<and>
   list_all isAscii (floatStr (env_up (Finite 415, Finite 22, Finite 40)) (Finite 415) 2) \<and>
   list_all isAscii ''field1=#.##&field2=#.##&field3=#.##&status=MQTTPUBLISH''"
proof -
  let ?e = "env_up (Finite 415, Finite 22, Finite 40)"
  have h1: "loopConnect ?e bootWorld = Some (emits [ClientConnected True, ClientLoop] bootWorld)"
    by (simp add: loopConnect_def Let_def env_up_def)
  have h2: "readSensorWithRetry ?e 3 (emits [ClientConnected True, ClientLoop] bootWorld) =
      (Some (Finite 415, Finite 22, Finite 40),
       emits [ClientConnected True, ClientLoop, ScdRead (Some (Finite 415, Finite 22, Finite 40))]
         bootWorld)"
    by (simp add: readSensorWithRetry_def readSensorLoop.simps blockingReadMeasurementData_def
          Let_def env_up_def)
  have ev: "filter isPublish (cycleEvents bootWorld (loop ?e 0 bootWorld)) =
      [ClientPublish ''channels/3141928/publish''
         ''field1=#.##&field2=#.##&field3=#.##&status=MQTTPUBLISH'' True True]"
    by (simp add: loop_def loopConnect_def loopDisplay_def readSensorWithRetry_def
          readSensorLoop.simps publishWithRetry_def publishLoop.simps publish_def
          blockingReadMeasurementData_def Let_def env_up_def bootWorld_def cycleEvents_def
          newEvents_def truncate_rat_def trace_checkCO2Alert fires_iff topic_def demoStr_def
          del: emits.simps)
  have a: "list_all isAscii (floatStr ?e (Finite 415) 2)"
    by (simp add: env_up_def demoStr_def)
  from payload_format [OF h1 h2, of 0]
  have "filter isPublish (cycleEvents bootWorld (loop ?e 0 bootWorld)) \<noteq> []"
    by (rule conjunct1)
  with h1 h2 ev a show ?thesis by simp
qed

end
